theory Spec2Isabelle
  imports Complex_Main
begin

section \<open>The auto-walk calculator of \<^verbatim>\<open>AutoWalkCalculator.tsx\<close>\<close>

text \<open>
  The component keeps six pieces of React state and derives the final speed from them on
  every render. The embedding below follows the component line by line.

  Numbers: the source computes on JavaScript numbers. They are modelled as \<^typ>\<open>real\<close>,
  with exact arithmetic; the override index, which only ever holds \<open>-1\<close> or a value reached
  from it by adding one, is an \<^typ>\<open>int\<close>. A value that is not a number in the source
  (\<^verbatim>\<open>undefined\<close>, \<^verbatim>\<open>NaN\<close>) is \<open>None\<close> in the model.

  The multiplier handler is the exception. Whether it snaps a value at the ends of its band
  is decided by the last bit of a subtraction and of the threshold, so there the numbers
  are IEEE 754 binary64 values: a decimal literal stands for the double nearest to it, and
  the subtraction rounds.
\<close>

subsection \<open>Binary64 numbers\<close>

text \<open>
  A finite double is a real number. \<open>binade x\<close> is the exponent \<open>e\<close> with
  \<open>2^e \<le> |x| < 2^(e+1)\<close>; doubles in that range are spaced \<open>2^(e-52)\<close> apart, and
  below \<open>2^(-1022)\<close> the spacing stays \<open>2^(-1074)\<close>. \<open>to_double\<close> rounds to the nearest
  double, a tie going to the even significand. Rounding to infinity is left out: the only
  rounded operation below is \<open>v - 1\<close> on a finite double \<open>v\<close>, which cannot overflow.
\<close>

definition pow2 :: "int \<Rightarrow> real" where
  "pow2 e = (if 0 \<le> e then 2 ^ nat e else 1 / 2 ^ nat (- e))"

definition binade :: "real \<Rightarrow> int" where
  "binade x = \<lfloor>log 2 \<bar>x\<bar>\<rfloor>"

definition ulp :: "real \<Rightarrow> real" where
  "ulp x = pow2 (max (binade x) (- 1022) - 52)"

definition round_half_even :: "real \<Rightarrow> int" where
  "round_half_even x =
     (let f = \<lfloor>x\<rfloor>; r = x - of_int f
      in if r < 1 / 2 then f else if 1 / 2 < r then f + 1
         else if even f then f else f + 1)"

definition to_double :: "real \<Rightarrow> real" where
  "to_double x = (if x = 0 then 0 else of_int (round_half_even (x / ulp x)) * ulp x)"

definition max_double :: real where
  "max_double = (2 ^ 53 - 1) * pow2 971"

definition is_double :: "real \<Rightarrow> bool" where
  "is_double v \<longleftrightarrow> to_double v = v \<and> \<bar>v\<bar> \<le> max_double"

subsection \<open>Constants\<close>

definition MAX_SPEED :: real where
  "MAX_SPEED = 10"

definition ANIMATION_SPEED :: real where
  "ANIMATION_SPEED = 1 / 100"

definition MIN_FINAL_SPEED :: real where
  "MIN_FINAL_SPEED = 1 / 10"

definition TEMP_OFFSET_AMOUNT :: real where
  "TEMP_OFFSET_AMOUNT = 1 / 4"

text \<open>The double that the literal \<^verbatim>\<open>0.08\<close> denotes.\<close>

definition MULTIPLIER_SNAP_THRESHOLD :: real where
  "MULTIPLIER_SNAP_THRESHOLD = to_double (8 / 100)"

definition presets :: "real list" where
  "presets = [1 / 4, 1 / 2, 3 / 4, 1]"

subsection \<open>State\<close>

datatype hold = Down | Up

record state =
  targetSpeed :: real
  currentSpeed :: real
  multiplier :: real
  overrideIndex :: int
  tempOffset :: real
  holdingOffset :: "hold option"

text \<open>The values given to \<^verbatim>\<open>useState\<close>.\<close>

definition initial :: state where
  "initial = \<lparr> targetSpeed = 5, currentSpeed = 5, multiplier = 1, overrideIndex = - 1,
      tempOffset = 0, holdingOffset = None \<rparr>"

subsection \<open>Smoothing\<close>

text \<open>
  One animation frame: the updater passed to \<^verbatim>\<open>setCurrentSpeed\<close>, with the
  \<^verbatim>\<open>targetSpeed\<close> of the state it runs in.
\<close>

definition animate :: "state \<Rightarrow> state" where
  "animate s =
     (let prev = currentSpeed s;
          diff = targetSpeed s - prev
      in if \<bar>diff\<bar> < 5 / 100 then s\<lparr>currentSpeed := targetSpeed s\<rparr>
         else s\<lparr>currentSpeed := prev + diff * ANIMATION_SPEED\<rparr>)"

subsection \<open>Composition of the final speed\<close>

text \<open>
  \<^verbatim>\<open>overrideIndex >= 0 ? presets[overrideIndex] : null\<close>. Reading the array past its end
  gives \<^verbatim>\<open>undefined\<close>, which is not \<^verbatim>\<open>null\<close>.
\<close>

datatype override_value = Null | Undefined | Preset real

definition override :: "state \<Rightarrow> override_value" where
  "override s =
     (if overrideIndex s \<ge> 0
      then (if nat (overrideIndex s) < length presets
            then Preset (presets ! nat (overrideIndex s)) else Undefined)
      else Null)"

definition isOverride :: "state \<Rightarrow> bool" where
  "isOverride s \<longleftrightarrow> override s \<noteq> Null"

definition baseSpeed :: "state \<Rightarrow> real" where
  "baseSpeed s = min (currentSpeed s / MAX_SPEED) 1"

text \<open>
  With an \<^verbatim>\<open>undefined\<close> override the source yields \<^verbatim>\<open>undefined\<close> or
  \<^verbatim>\<open>NaN\<close>: \<open>None\<close>.
\<close>

definition postMultiplierSpeed :: "state \<Rightarrow> real option" where
  "postMultiplierSpeed s =
     (case override s of
        Null \<Rightarrow> Some (baseSpeed s * multiplier s)
      | Preset p \<Rightarrow> Some (if targetSpeed s \<ge> 0 then p else min (baseSpeed s) p)
      | Undefined \<Rightarrow> None)"

text \<open>A comparison with a value that is not a number is false.\<close>

definition effectiveOffset :: "state \<Rightarrow> real" where
  "effectiveOffset s =
     (if tempOffset s < 0
      then (case postMultiplierSpeed s of
              Some p \<Rightarrow> if p \<ge> MIN_FINAL_SPEED
                        then max (tempOffset s) (MIN_FINAL_SPEED - p) else 0
            | None \<Rightarrow> 0)
      else tempOffset s)"

definition finalSpeed :: "state \<Rightarrow> real option" where
  "finalSpeed s =
     (case postMultiplierSpeed s of
        Some p \<Rightarrow> Some (max 0 (min 1 (p + effectiveOffset s)))
      | None \<Rightarrow> None)"

subsection \<open>Handlers\<close>

definition handleOverrideClick :: "state \<Rightarrow> state" where
  "handleOverrideClick s =
     s\<lparr>overrideIndex := (if overrideIndex s \<ge> 3 then - 1 else overrideIndex s + 1)\<rparr>"

text \<open>
  The proposed value \<open>v\<close> is a finite double; \<^verbatim>\<open>v - 1.0\<close> is the rounded difference.
\<close>

definition handleMultiplierChange :: "real \<Rightarrow> state \<Rightarrow> state" where
  "handleMultiplierChange v s =
     (if \<bar>to_double (v - 1)\<bar> < MULTIPLIER_SNAP_THRESHOLD then s\<lparr>multiplier := 1\<rparr>
      else s\<lparr>multiplier := v\<rparr>)"

definition handleSlowDown :: "state \<Rightarrow> state" where
  "handleSlowDown s = s\<lparr>tempOffset := - TEMP_OFFSET_AMOUNT, holdingOffset := Some Down\<rparr>"

definition handleCatchUp :: "state \<Rightarrow> state" where
  "handleCatchUp s = s\<lparr>tempOffset := TEMP_OFFSET_AMOUNT, holdingOffset := Some Up\<rparr>"

definition handleOffsetRelease :: "state \<Rightarrow> state" where
  "handleOffsetRelease s = s\<lparr>tempOffset := 0, holdingOffset := None\<rparr>"

definition handleResetTreadmill :: "state \<Rightarrow> state" where
  "handleResetTreadmill s = s\<lparr>targetSpeed := 5\<rparr>"

definition handleResetVRTI :: "state \<Rightarrow> state" where
  "handleResetVRTI s = s\<lparr>multiplier := 1, overrideIndex := - 1\<rparr>"

subsection \<open>The words of the specification\<close>

text \<open>
  The specification writes \<open>clamp(x, lo, hi)\<close> for the value of \<open>x\<close> brought into
  \<open>[lo, hi]\<close>, and states the domain of the inputs. Both are written here after the
  specification, to compare the code with.
\<close>

definition clamp :: "real \<Rightarrow> real \<Rightarrow> real \<Rightarrow> real" where
  "clamp x lo hi = (if x < lo then lo else if x > hi then hi else x)"

definition valid_input :: "state \<Rightarrow> bool" where
  "valid_input s \<longleftrightarrow>
     0 \<le> currentSpeed s \<and> currentSpeed s \<le> MAX_SPEED \<and>
     0 \<le> targetSpeed s \<and> targetSpeed s \<le> MAX_SPEED \<and>
     0 \<le> multiplier s \<and> multiplier s \<le> 2 \<and>
     overrideIndex s \<in> {- 1, 0, 1, 2, 3} \<and>
     tempOffset s \<in> {- TEMP_OFFSET_AMOUNT, 0, TEMP_OFFSET_AMOUNT}"

subsection \<open>Progress measure and sample states\<close>

text \<open>The distance that smoothing still has to cover.\<close>

definition dist_to_target :: "state \<Rightarrow> real" where
  "dist_to_target s = \<bar>targetSpeed s - currentSpeed s\<bar>"

text \<open>A slow walk with the slow-down button held, and no override.\<close>

definition slow_walk :: state where
  "slow_walk = \<lparr> targetSpeed = 3 / 2, currentSpeed = 3 / 2, multiplier = 1,
      overrideIndex = - 1, tempOffset = - (1 / 4), holdingOffset = Some Down \<rparr>"

text \<open>The first preset (0.25) with the slow-down button held.\<close>

definition preset_low :: state where
  "preset_low = \<lparr> targetSpeed = 5, currentSpeed = 5, multiplier = 1,
      overrideIndex = 0, tempOffset = - (1 / 4), holdingOffset = Some Down \<rparr>"

text \<open>The third preset (0.75) with the slow-down button held.\<close>

definition preset_high :: state where
  "preset_high = \<lparr> targetSpeed = 5, currentSpeed = 2, multiplier = 3 / 2,
      overrideIndex = 2, tempOffset = - (1 / 4), holdingOffset = Some Down \<rparr>"

text \<open>The treadmill speeding up from 3 to 5, and almost arrived at 5.\<close>

definition speeding_up :: state where
  "speeding_up = initial\<lparr>currentSpeed := 3\<rparr>"

definition nearly_there :: state where
  "nearly_there = initial\<lparr>currentSpeed := 497 / 100\<rparr>"

section \<open>Helper facts\<close>

lemma override_in_range:
  assumes "overrideIndex s \<in> {- 1, 0, 1, 2, 3}"
  shows "override s \<noteq> Undefined"
  using assms by (auto simp: override_def presets_def)

lemma post_defined:
  assumes "overrideIndex s \<in> {- 1, 0, 1, 2, 3}"
  shows "\<exists>p. postMultiplierSpeed s = Some p"
  using override_in_range[OF assms]
  by (cases "override s") (simp_all add: postMultiplierSpeed_def)

lemma post_tempOffset_update:
  "postMultiplierSpeed (s\<lparr>tempOffset := x\<rparr>) = postMultiplierSpeed s"
  by (simp add: postMultiplierSpeed_def override_def baseSpeed_def)

lemma post_override_2:
  assumes "overrideIndex s = 2" and "0 \<le> targetSpeed s"
  shows "postMultiplierSpeed s = Some (3 / 4)"
  using assms by (simp add: postMultiplierSpeed_def override_def presets_def)

lemma animate_target [simp]: "targetSpeed (animate s) = targetSpeed s"
  by (simp add: animate_def Let_def)

lemma funpow_animate_target [simp]: "targetSpeed ((animate ^^ n) s) = targetSpeed s"
  by (induction n) simp_all

lemma animate_snap:
  "dist_to_target s < 5 / 100 \<Longrightarrow> currentSpeed (animate s) = targetSpeed s"
  by (simp add: animate_def Let_def dist_to_target_def)

text \<open>Away from the target, a tick shrinks the distance by the factor 0.99.\<close>

lemma animate_far:
  "\<not> dist_to_target s < 5 / 100 \<Longrightarrow>
     dist_to_target (animate s) = (99 / 100) * dist_to_target s"
  by (simp add: animate_def Let_def dist_to_target_def ANIMATION_SPEED_def abs_if field_simps)

lemma animate_at_target:
  "currentSpeed s = targetSpeed s \<Longrightarrow> currentSpeed (animate s) = targetSpeed s"
  by (simp add: animate_def Let_def)

lemma funpow_animate_at_target:
  "currentSpeed s = targetSpeed s \<Longrightarrow> currentSpeed ((animate ^^ n) s) = targetSpeed s"
proof (induction n)
  case 0
  then show ?case by simp
next
  case (Suc n)
  then have "currentSpeed ((animate ^^ n) s) = targetSpeed ((animate ^^ n) s)" by simp
  from animate_at_target[OF this] show ?case by simp
qed

lemma animate_reaches:
  "dist_to_target s * (99 / 100) ^ n < 5 / 100 \<Longrightarrow>
     currentSpeed ((animate ^^ Suc n) s) = targetSpeed s"
proof (induction n arbitrary: s)
  case 0
  then show ?case by (simp add: animate_snap)
next
  case (Suc n)
  show ?case
  proof (cases "dist_to_target s < 5 / 100")
    case True
    then have "currentSpeed (animate s) = targetSpeed (animate s)"
      by (simp add: animate_snap)
    from funpow_animate_at_target[OF this, of "Suc n"] show ?thesis
      by (simp add: funpow_swap1)
  next
    case False
    then have "dist_to_target (animate s) * (99 / 100) ^ n < 5 / 100"
      using Suc.prems by (simp add: animate_far mult.assoc)
    from Suc.IH[OF this] show ?thesis
      by (simp add: funpow_swap1)
  qed
qed

section \<open>Binary64 facts\<close>

lemma pow2_powr: "pow2 e = 2 powr (of_int e)"
  by (simp add: pow2_def powr_real_of_int inverse_eq_divide)

lemma pow2_pos [simp]: "0 < pow2 e"
  by (simp add: pow2_powr)

lemma pow2_add: "pow2 (a + b) = pow2 a * pow2 b"
  by (simp add: pow2_powr powr_add)

lemma pow2_diff: "pow2 (a - b) = pow2 a / pow2 b"
  by (simp add: pow2_powr powr_diff)

lemma pow2_nat: "0 \<le> e \<Longrightarrow> pow2 e = of_int (2 ^ nat e)"
  by (simp add: pow2_def)

lemma binade_eqI:
  assumes "pow2 e \<le> \<bar>x\<bar>" and "\<bar>x\<bar> < pow2 (e + 1)"
  shows "binade x = e"
proof -
  have "0 < \<bar>x\<bar>" using assms(1) pow2_pos[of e] by linarith
  then show ?thesis
    using assms unfolding binade_def
    by (simp add: floor_log_eq_powr_iff pow2_powr)
qed

lemma binade_less:
  assumes "x \<noteq> 0" and "\<bar>x\<bar> < pow2 e"
  shows "binade x < e"
proof -
  have "log 2 \<bar>x\<bar> < of_int e"
    using assms by (simp add: log_less_iff pow2_powr)
  then show ?thesis
    unfolding binade_def by (simp add: floor_less_iff)
qed

lemma round_half_even_of_int [simp]: "round_half_even (of_int k) = k"
  by (simp add: round_half_even_def)

lemma to_double_exact:
  assumes x: "x = of_int k * pow2 g" and nz: "x \<noteq> 0"
    and g: "max (binade x) (- 1022) - 52 \<le> g"
  shows "to_double x = x"
proof -
  define E where "E = max (binade x) (- 1022) - 52"
  have u: "ulp x = pow2 E" by (simp add: ulp_def E_def)
  have d: "0 \<le> g - E" using g by (simp add: E_def)
  have "x / ulp x = x / pow2 E"
    by (simp only: u)
  also have "\<dots> = of_int k * (pow2 g / pow2 E)"
    using x by simp
  also have "\<dots> = of_int k * pow2 (g - E)"
    by (simp only: pow2_diff)
  also have "\<dots> = of_int (k * 2 ^ nat (g - E))"
    by (simp add: pow2_nat[OF d])
  finally have q: "x / ulp x = of_int (k * 2 ^ nat (g - E))" .
  have r: "round_half_even (x / ulp x) = k * 2 ^ nat (g - E)"
    by (simp only: q round_half_even_of_int)
  have "to_double x = of_int (round_half_even (x / ulp x)) * ulp x"
    using nz by (simp add: to_double_def)
  also have "\<dots> = of_int (k * 2 ^ nat (g - E)) * pow2 E"
    by (simp only: r) (simp only: u)
  also have "\<dots> = of_int k * (pow2 (g - E) * pow2 E)"
    by (simp add: pow2_nat[OF d])
  also have "pow2 (g - E) * pow2 E = pow2 g"
    by (simp add: pow2_add[symmetric])
  finally show ?thesis using x by simp
qed



lemma round_half_even_eqI:
  assumes "\<bar>x - of_int n\<bar> < 1 / 2"
  shows "round_half_even x = n"
proof -
  have "\<lfloor>x\<rfloor> = n \<and> x - of_int n < 1 / 2 \<or> \<lfloor>x\<rfloor> = n - 1 \<and> 1 / 2 < x - of_int (n - 1)"
    using assms by (auto simp: floor_eq_iff abs_if split: if_splits)
  then show ?thesis
    by (auto simp: round_half_even_def Let_def)
qed

lemma to_double_eval:
  assumes "pow2 e \<le> \<bar>x\<bar>" and "\<bar>x\<bar> < pow2 (e + 1)" and "- 1022 \<le> e"
  shows "to_double x = of_int (round_half_even (x / pow2 (e - 52))) * pow2 (e - 52)"
proof -
  have b: "binade x = e" by (rule binade_eqI[OF assms(1,2)])
  have "0 < \<bar>x\<bar>" using assms(1) pow2_pos[of e] by linarith
  then have nz: "x \<noteq> 0" by simp
  have u: "ulp x = pow2 (e - 52)"
    using assms(3) by (simp add: ulp_def b)
  show ?thesis using nz by (simp add: to_double_def u)
qed


lemma double_grid:
  assumes "is_double v" and "pow2 e \<le> \<bar>v\<bar>" and "\<bar>v\<bar> < pow2 (e + 1)" and "- 1022 \<le> e"
  obtains n where "v = of_int n * pow2 (e - 52)"
proof -
  have "to_double v = v" using assms(1) by (simp add: is_double_def)
  with to_double_eval[OF assms(2-4)]
  have "v = of_int (round_half_even (v / pow2 (e - 52))) * pow2 (e - 52)" by simp
  then show ?thesis by (rule that)
qed

lemma to_double_small_exact:
  assumes x: "x = of_int k * pow2 g" and g: "- 53 \<le> g" and lt: "\<bar>x\<bar> < 1"
  shows "to_double x = x"
proof (cases "x = 0")
  case True
  then show ?thesis by (simp add: to_double_def)
next
  case False
  have "\<bar>x\<bar> < pow2 0" using lt by (simp add: pow2_def)
  from binade_less[OF False this] have "max (binade x) (- 1022) - 52 \<le> g"
    using g by simp
  from to_double_exact[OF x False this] show ?thesis .
qed

lemma double_092: "to_double (92 / 100) = 8286623314361713 * pow2 (- 53)"
proof -
  have r: "round_half_even (92 / 100 / pow2 (- 1 - 52)) = 8286623314361713"
    by (rule round_half_even_eqI) (simp add: pow2_def)
  have "to_double (92 / 100)
      = of_int (round_half_even (92 / 100 / pow2 (- 1 - 52))) * pow2 (- 1 - 52)"
    by (rule to_double_eval) (simp_all add: pow2_def)
  then show ?thesis by (simp only: r) simp
qed

lemma double_091: "to_double (91 / 100) = 8196551321814303 * pow2 (- 53)"
proof -
  have r: "round_half_even (91 / 100 / pow2 (- 1 - 52)) = 8196551321814303"
    by (rule round_half_even_eqI) (simp add: pow2_def)
  have "to_double (91 / 100)
      = of_int (round_half_even (91 / 100 / pow2 (- 1 - 52))) * pow2 (- 1 - 52)"
    by (rule to_double_eval) (simp_all add: pow2_def)
  then show ?thesis by (simp only: r) simp
qed

lemma double_108: "to_double (108 / 100) = 4863887597560136 * pow2 (- 52)"
proof -
  have r: "round_half_even (108 / 100 / pow2 (0 - 52)) = 4863887597560136"
    by (rule round_half_even_eqI) (simp add: pow2_def)
  have "to_double (108 / 100)
      = of_int (round_half_even (108 / 100 / pow2 (0 - 52))) * pow2 (0 - 52)"
    by (rule to_double_eval) (simp_all add: pow2_def)
  then show ?thesis by (simp only: r) simp
qed

lemma double_109: "to_double (109 / 100) = 4908923593833841 * pow2 (- 52)"
proof -
  have r: "round_half_even (109 / 100 / pow2 (0 - 52)) = 4908923593833841"
    by (rule round_half_even_eqI) (simp add: pow2_def)
  have "to_double (109 / 100)
      = of_int (round_half_even (109 / 100 / pow2 (0 - 52))) * pow2 (0 - 52)"
    by (rule to_double_eval) (simp_all add: pow2_def)
  then show ?thesis by (simp only: r) simp
qed

lemma threshold_value: "MULTIPLIER_SNAP_THRESHOLD = 5764607523034235 * pow2 (- 56)"
proof -
  have r: "round_half_even (8 / 100 / pow2 (- 4 - 52)) = 5764607523034235"
    by (rule round_half_even_eqI) (simp add: pow2_def)
  have "to_double (8 / 100)
      = of_int (round_half_even (8 / 100 / pow2 (- 4 - 52))) * pow2 (- 4 - 52)"
    by (rule to_double_eval) (simp_all add: pow2_def)
  then show ?thesis by (simp only: r MULTIPLIER_SNAP_THRESHOLD_def) simp
qed

text \<open>Subtracting 1 from a double in \<open>[1/2, 2)\<close> is exact.\<close>

lemma sub_one_exact:
  assumes d: "is_double v" and lo: "1 / 2 \<le> v" and hi: "v < 2"
  shows "to_double (v - 1) = v - 1"
proof (cases "v < 1")
  case True
  have "pow2 (- 1) \<le> \<bar>v\<bar>" "\<bar>v\<bar> < pow2 (- 1 + 1)"
    using lo True by (simp_all add: pow2_def)
  from double_grid[OF d this] obtain n where n: "v = of_int n * pow2 (- 1 - 52)"
    by auto
  have e: "v - 1 = of_int (n - 2 ^ 53) * pow2 (- 53)"
    using n by (simp add: pow2_def algebra_simps)
  have l: "\<bar>v - 1\<bar> < 1" using lo True by simp
  show ?thesis by (rule to_double_small_exact[OF e _ l]) simp
next
  case False
  have "pow2 0 \<le> \<bar>v\<bar>" "\<bar>v\<bar> < pow2 (0 + 1)"
    using hi False by (simp_all add: pow2_def)
  from double_grid[OF d this] obtain n where n: "v = of_int n * pow2 (0 - 52)"
    by auto
  have e: "v - 1 = of_int (n - 2 ^ 52) * pow2 (- 52)"
    using n by (simp add: pow2_def algebra_simps)
  have l: "\<bar>v - 1\<bar> < 1" using hi False by simp
  show ?thesis by (rule to_double_small_exact[OF e _ l]) simp
qed

text \<open>A double below the double written 1.08 is at most its predecessor.\<close>

lemma below_108:
  assumes d: "is_double v" and lo: "1 \<le> v" and hi: "v < to_double (108 / 100)"
  shows "v \<le> 4863887597560135 * pow2 (- 52)"
proof -
  have hi': "v < 4863887597560136 * pow2 (- 52)"
    using hi by (simp only: double_108)
  have "pow2 0 \<le> \<bar>v\<bar>" "\<bar>v\<bar> < pow2 (0 + 1)"
    using lo hi' by (simp_all add: pow2_def)
  from double_grid[OF d this] obtain n where n: "v = of_int n * pow2 (0 - 52)"
    by auto
  have "of_int n * pow2 (- 52) < 4863887597560136 * pow2 (- 52)"
    using hi' n by simp
  then have "real_of_int n < 4863887597560136"
    by (simp only: mult_less_cancel_right_pos[OF pow2_pos])
  then have "n < 4863887597560136" by linarith
  then have "n \<le> 4863887597560135" by simp
  then have "real_of_int n \<le> 4863887597560135" by linarith
  then have "of_int n * pow2 (- 52) \<le> 4863887597560135 * pow2 (- 52)"
    by (simp only: mult_le_cancel_right_pos[OF pow2_pos])
  then show ?thesis using n by simp
qed

lemma snap_band:
  assumes d: "is_double v" and lo: "to_double (92 / 100) \<le> v" and hi: "v < to_double (108 / 100)"
  shows "\<bar>to_double (v - 1)\<bar> < MULTIPLIER_SNAP_THRESHOLD"
proof -
  have lo': "8286623314361713 * pow2 (- 53) \<le> v"
    using lo by (simp only: double_092)
  have hi': "v < 4863887597560136 * pow2 (- 52)"
    using hi by (simp only: double_108)
  have half: "1 / 2 \<le> v" using lo' by (simp add: pow2_def)
  have two: "v < 2" using hi' by (simp add: pow2_def)
  have ex: "to_double (v - 1) = v - 1"
    by (rule sub_one_exact[OF d half two])
  show ?thesis
  proof (cases "v < 1")
    case True
    then show ?thesis
      using lo' by (simp add: ex threshold_value pow2_def)
  next
    case False
    then have "1 \<le> v" by simp
    from below_108[OF d this hi] show ?thesis
      using False by (simp add: ex threshold_value pow2_def)
  qed
qed

lemma is_double_092: "is_double (to_double (92 / 100))"
proof -
  have a: "to_double (8286623314361713 * pow2 (- 53)) = 8286623314361713 * pow2 (- 53)"
    by (rule to_double_small_exact[where k = 8286623314361713 and g = "- 53"])
      (simp_all add: pow2_def)
  have b: "\<bar>8286623314361713 * pow2 (- 53)\<bar> \<le> max_double"
    by (simp add: pow2_def max_double_def)
  from a b show ?thesis
    unfolding is_double_def double_092 by (rule conjI)
qed

lemma is_double_108: "is_double (to_double (108 / 100))"
proof -
  have a: "to_double (4863887597560136 * pow2 (- 52)) = 4863887597560136 * pow2 (- 52)"
    by (rule to_double_exact[where k = 4863887597560136 and g = "- 52"])
      (simp_all add: binade_eqI[where e = 0] pow2_def)
  have b: "\<bar>4863887597560136 * pow2 (- 52)\<bar> \<le> max_double"
    by (simp add: pow2_def max_double_def)
  from a b show ?thesis
    unfolding is_double_def double_108 by (rule conjI)
qed

lemma is_double_091: "is_double (to_double (91 / 100))"
proof -
  have a: "to_double (8196551321814303 * pow2 (- 53)) = 8196551321814303 * pow2 (- 53)"
    by (rule to_double_small_exact[where k = 8196551321814303 and g = "- 53"])
      (simp_all add: pow2_def)
  have b: "\<bar>8196551321814303 * pow2 (- 53)\<bar> \<le> max_double"
    by (simp add: pow2_def max_double_def)
  from a b show ?thesis
    unfolding is_double_def double_091 by (rule conjI)
qed

lemma is_double_109: "is_double (to_double (109 / 100))"
proof -
  have a: "to_double (4908923593833841 * pow2 (- 52)) = 4908923593833841 * pow2 (- 52)"
    by (rule to_double_exact[where k = 4908923593833841 and g = "- 52"])
      (simp_all add: binade_eqI[where e = 0] pow2_def)
  have b: "\<bar>4908923593833841 * pow2 (- 52)\<bar> \<le> max_double"
    by (simp add: pow2_def max_double_def)
  from a b show ?thesis
    unfolding is_double_def double_109 by (rule conjI)
qed

lemma keep_108:
  "\<not> \<bar>to_double (to_double (108 / 100) - 1)\<bar> < MULTIPLIER_SNAP_THRESHOLD"
proof -
  have "to_double (to_double (108 / 100) - 1) = to_double (108 / 100) - 1"
    by (rule sub_one_exact[OF is_double_108]; unfold double_108) (simp_all add: pow2_def)
  then show ?thesis
    unfolding double_108 threshold_value by (simp add: pow2_def)
qed

lemma keep_091:
  "\<not> \<bar>to_double (to_double (91 / 100) - 1)\<bar> < MULTIPLIER_SNAP_THRESHOLD"
proof -
  have "to_double (to_double (91 / 100) - 1) = to_double (91 / 100) - 1"
    by (rule sub_one_exact[OF is_double_091]; unfold double_091) (simp_all add: pow2_def)
  then show ?thesis
    unfolding double_091 threshold_value by (simp add: pow2_def)
qed

lemma keep_109:
  "\<not> \<bar>to_double (to_double (109 / 100) - 1)\<bar> < MULTIPLIER_SNAP_THRESHOLD"
proof -
  have "to_double (to_double (109 / 100) - 1) = to_double (109 / 100) - 1"
    by (rule sub_one_exact[OF is_double_109]; unfold double_109) (simp_all add: pow2_def)
  then show ?thesis
    unfolding double_109 threshold_value by (simp add: pow2_def)
qed

lemma lit_092_lt_108: "to_double (92 / 100) < to_double (108 / 100)"
  unfolding double_092 double_108 by (simp add: pow2_def)

lemma lit_108_ne_1: "to_double (108 / 100) \<noteq> 1"
  unfolding double_108 by (simp add: pow2_def)

section \<open>Composition of the final speed\<close>

text \<open>
  C1. In every evaluation of the composition (override index in \<open>-1..3\<close>, so that the
  post-multiplier speed \<open>p\<close> is a number): with a negative temporary offset and
  \<open>p \<ge> 0.1\<close> the effective offset is \<open>max(tempOffset, 0.1 - p)\<close>; with a negative
  temporary offset and \<open>p < 0.1\<close> it is 0; with a temporary offset \<open>\<ge> 0\<close> it is the
  temporary offset; and the final speed is \<open>clamp(p + effectiveOffset, 0, 1)\<close>.
\<close>

theorem effective_offset_policy:
  assumes "overrideIndex s \<in> {- 1, 0, 1, 2, 3}"
  shows "\<exists>p. postMultiplierSpeed s = Some p
    \<and> (tempOffset s < 0 \<and> p \<ge> 1 / 10 \<longrightarrow>
         effectiveOffset s = max (tempOffset s) (1 / 10 - p))
    \<and> (tempOffset s < 0 \<and> p < 1 / 10 \<longrightarrow> effectiveOffset s = 0)
    \<and> (tempOffset s \<ge> 0 \<longrightarrow> effectiveOffset s = tempOffset s)
    \<and> finalSpeed s = Some (clamp (p + effectiveOffset s) 0 1)"
proof -
  from post_defined[OF assms] obtain p where p: "postMultiplierSpeed s = Some p" ..
  show ?thesis
    using p by (auto simp: effectiveOffset_def finalSpeed_def clamp_def MIN_FINAL_SPEED_def)
qed

theorem effective_offset_policy_witness:
  "overrideIndex slow_walk \<in> {- 1, 0, 1, 2, 3}
   \<and> postMultiplierSpeed slow_walk = Some (3 / 20)
   \<and> effectiveOffset slow_walk = - (1 / 20)
   \<and> finalSpeed slow_walk = Some (1 / 10)"
proof -
  have h: "overrideIndex slow_walk \<in> {- 1, 0, 1, 2, 3}"
    by (simp add: slow_walk_def)
  have p: "postMultiplierSpeed slow_walk = Some (3 / 20)"
    by (simp add: slow_walk_def postMultiplierSpeed_def override_def baseSpeed_def MAX_SPEED_def)
  have t: "tempOffset slow_walk = - (1 / 4)"
    by (simp add: slow_walk_def)
  from effective_offset_policy[OF h] obtain q where
    q: "postMultiplierSpeed slow_walk = Some q" and
    e: "tempOffset slow_walk < 0 \<and> q \<ge> 1 / 10 \<longrightarrow>
          effectiveOffset slow_walk = max (tempOffset slow_walk) (1 / 10 - q)" and
    f: "finalSpeed slow_walk = Some (clamp (q + effectiveOffset slow_walk) 0 1)"
    by blast
  from q p have qv: "q = 3 / 20" by simp
  from e have ev: "effectiveOffset slow_walk = - (1 / 20)"
    by (simp add: qv t)
  from f have "finalSpeed slow_walk = Some (1 / 10)"
    by (simp add: qv ev clamp_def)
  with h p ev show ?thesis by simp
qed

text \<open>
  C2. For every valid input (current and target speed in \<open>[0, MAX_SPEED]\<close>, multiplier in
  \<open>[0, 2]\<close>, override index in \<open>-1..3\<close>, temporary offset one of \<open>-0.25, 0, 0.25\<close>):
  when the post-multiplier speed is at least 0.1, so is the final speed. With the override
  off, multiplier 1, base 0.15 (current speed 1.5) and temporary offset \<open>-0.25\<close> the final
  speed is exactly 0.1.
\<close>

theorem floor_protection:
  "(valid_input s \<and> postMultiplierSpeed s = Some p \<and> 1 / 10 \<le> p \<longrightarrow>
      (\<exists>f. finalSpeed s = Some f \<and> 1 / 10 \<le> f))
   \<and> baseSpeed \<lparr> targetSpeed = t, currentSpeed = 3 / 2, multiplier = 1, overrideIndex = - 1,
        tempOffset = - (1 / 4), holdingOffset = h \<rparr> = 15 / 100
   \<and> finalSpeed \<lparr> targetSpeed = t, currentSpeed = 3 / 2, multiplier = 1, overrideIndex = - 1,
        tempOffset = - (1 / 4), holdingOffset = h \<rparr> = Some (1 / 10)"
proof -
  have gen: "\<exists>f. finalSpeed s = Some f \<and> 1 / 10 \<le> f"
    if p: "postMultiplierSpeed s = Some p" and fl: "1 / 10 \<le> p"
  proof -
    have "1 / 10 \<le> p + effectiveOffset s"
    proof (cases "tempOffset s < 0")
      case True
      then have "effectiveOffset s = max (tempOffset s) (1 / 10 - p)"
        using p fl by (simp add: effectiveOffset_def MIN_FINAL_SPEED_def)
      moreover have "1 / 10 - p \<le> max (tempOffset s) (1 / 10 - p)"
        by (rule max.cobounded2)
      ultimately show ?thesis by linarith
    next
      case False
      then have "effectiveOffset s = tempOffset s"
        by (simp add: effectiveOffset_def)
      with False fl show ?thesis by linarith
    qed
    then have "1 / 10 \<le> max 0 (min 1 (p + effectiveOffset s))"
      by simp
    then show ?thesis by (simp add: finalSpeed_def p)
  qed
  have base: "baseSpeed \<lparr> targetSpeed = t, currentSpeed = 3 / 2, multiplier = 1,
        overrideIndex = - 1, tempOffset = - (1 / 4), holdingOffset = h \<rparr> = 15 / 100"
    by (simp add: baseSpeed_def MAX_SPEED_def)
  have ex: "finalSpeed \<lparr> targetSpeed = t, currentSpeed = 3 / 2, multiplier = 1,
        overrideIndex = - 1, tempOffset = - (1 / 4), holdingOffset = h \<rparr> = Some (1 / 10)"
    by (simp add: finalSpeed_def effectiveOffset_def postMultiplierSpeed_def override_def
        baseSpeed_def MAX_SPEED_def MIN_FINAL_SPEED_def)
  from gen base ex show ?thesis by blast
qed

theorem floor_protection_witness:
  "valid_input preset_low \<and> postMultiplierSpeed preset_low = Some (1 / 4)
   \<and> (1 / 10 :: real) \<le> 1 / 4
   \<and> (\<exists>f. finalSpeed preset_low = Some f \<and> 1 / 10 \<le> f)"
proof -
  have v: "valid_input preset_low"
    by (simp add: preset_low_def valid_input_def MAX_SPEED_def TEMP_OFFSET_AMOUNT_def)
  have p: "postMultiplierSpeed preset_low = Some (1 / 4)"
    by (simp add: preset_low_def postMultiplierSpeed_def override_def presets_def)
  from floor_protection[of preset_low "1 / 4"] v p show ?thesis
    by simp
qed

text \<open>
  C5. With override index 2 (preset 0.75) and a target speed \<open>\<ge> 0\<close>, for every current
  speed and every multiplier the final speed is \<open>clamp(0.75 + effectiveOffset, 0, 1)\<close>,
  and neither it nor the effective offset changes when the multiplier does.
\<close>

theorem override_pin:
  assumes "overrideIndex s = 2" and "0 \<le> targetSpeed s"
  shows "finalSpeed s = Some (clamp (3 / 4 + effectiveOffset s) 0 1)
    \<and> finalSpeed (s\<lparr>multiplier := m\<rparr>) = finalSpeed s
    \<and> effectiveOffset (s\<lparr>multiplier := m\<rparr>) = effectiveOffset s"
proof -
  have a: "postMultiplierSpeed s = Some (3 / 4)"
    by (rule post_override_2[OF assms])
  have b: "postMultiplierSpeed (s\<lparr>multiplier := m\<rparr>) = Some (3 / 4)"
    by (rule post_override_2) (simp_all add: assms)
  have e: "effectiveOffset (s\<lparr>multiplier := m\<rparr>) = effectiveOffset s"
    by (simp add: effectiveOffset_def a b)
  have f: "finalSpeed s = Some (clamp (3 / 4 + effectiveOffset s) 0 1)"
    by (auto simp: finalSpeed_def a clamp_def)
  have g: "finalSpeed (s\<lparr>multiplier := m\<rparr>) = finalSpeed s"
    by (simp add: finalSpeed_def a b e)
  from e f g show ?thesis by simp
qed

theorem override_pin_witness:
  "overrideIndex preset_high = 2 \<and> 0 \<le> targetSpeed preset_high
   \<and> finalSpeed preset_high = Some (1 / 2)
   \<and> finalSpeed (preset_high\<lparr>multiplier := 0\<rparr>) = Some (1 / 2)"
proof -
  have i: "overrideIndex preset_high = 2" and t: "0 \<le> targetSpeed preset_high"
    by (simp_all add: preset_high_def)
  have e: "effectiveOffset preset_high = - (1 / 4)"
    by (simp add: effectiveOffset_def post_override_2[OF i t] MIN_FINAL_SPEED_def)
      (simp add: preset_high_def)
  from override_pin[OF i t, of 0] i t e show ?thesis
    by (simp add: clamp_def)
qed

text \<open>
  C9. For every current speed in \<open>[0, MAX_SPEED]\<close> the base speed equals
  \<open>clamp(currentSpeed / MAX_SPEED, 0, 1)\<close> and lies in \<open>[0, 1]\<close>.
\<close>

theorem base_speed_clamp:
  assumes "0 \<le> currentSpeed s" and "currentSpeed s \<le> MAX_SPEED"
  shows "baseSpeed s = clamp (currentSpeed s / MAX_SPEED) 0 1
    \<and> 0 \<le> baseSpeed s \<and> baseSpeed s \<le> 1"
  using assms by (auto simp: baseSpeed_def clamp_def MAX_SPEED_def)

theorem base_speed_clamp_witness:
  "0 \<le> currentSpeed initial \<and> currentSpeed initial \<le> MAX_SPEED
   \<and> baseSpeed initial = 1 / 2 \<and> clamp (currentSpeed initial / MAX_SPEED) 0 1 = 1 / 2"
proof -
  have a: "0 \<le> currentSpeed initial" and b: "currentSpeed initial \<le> MAX_SPEED"
    by (simp_all add: initial_def MAX_SPEED_def)
  have c: "clamp (currentSpeed initial / MAX_SPEED) 0 1 = 1 / 2"
    by (simp add: initial_def MAX_SPEED_def clamp_def)
  from base_speed_clamp[OF a b] a b c show ?thesis
    by simp
qed

text \<open>
  C10. For every valid input the final speed with temporary offset \<open>-0.25\<close> is at most
  the final speed of the same state with temporary offset 0; and whenever the temporary
  offset is negative the effective offset is not positive.
\<close>

theorem slow_down_never_increases:
  "(valid_input s \<longrightarrow>
      (\<exists>a b. finalSpeed (s\<lparr>tempOffset := - (1 / 4)\<rparr>) = Some a
           \<and> finalSpeed (s\<lparr>tempOffset := 0\<rparr>) = Some b \<and> a \<le> b))
   \<and> (tempOffset s < 0 \<longrightarrow> effectiveOffset s \<le> 0)"
proof -
  have neg: "effectiveOffset s \<le> 0" if "tempOffset s < 0" for s
    using that by (auto simp: effectiveOffset_def split: option.splits)
  have cmp: "\<exists>a b. finalSpeed (s\<lparr>tempOffset := - (1 / 4)\<rparr>) = Some a
           \<and> finalSpeed (s\<lparr>tempOffset := 0\<rparr>) = Some b \<and> a \<le> b" if v: "valid_input s"
  proof -
    have "overrideIndex s \<in> {- 1, 0, 1, 2, 3}"
      using v by (simp add: valid_input_def)
    from post_defined[OF this] obtain p where p: "postMultiplierSpeed s = Some p" ..
    have p1: "postMultiplierSpeed (s\<lparr>tempOffset := - (1 / 4)\<rparr>) = Some p"
      by (simp add: post_tempOffset_update p)
    have p2: "postMultiplierSpeed (s\<lparr>tempOffset := 0\<rparr>) = Some p"
      by (simp add: post_tempOffset_update p)
    have e1: "effectiveOffset (s\<lparr>tempOffset := - (1 / 4)\<rparr>) \<le> 0"
      by (rule neg) simp
    have e2: "effectiveOffset (s\<lparr>tempOffset := 0\<rparr>) = 0"
      by (simp add: effectiveOffset_def)
    show ?thesis using e1 by (simp add: finalSpeed_def p1 p2 e2)
  qed
  from neg cmp show ?thesis by blast
qed

theorem slow_down_never_increases_witness:
  "valid_input initial
   \<and> (\<exists>a b. finalSpeed (initial\<lparr>tempOffset := - (1 / 4)\<rparr>) = Some a
           \<and> finalSpeed (initial\<lparr>tempOffset := 0\<rparr>) = Some b \<and> a \<le> b)
   \<and> tempOffset slow_walk < 0 \<and> effectiveOffset slow_walk \<le> 0"
proof -
  have v: "valid_input initial"
    by (simp add: initial_def valid_input_def MAX_SPEED_def)
  have t: "tempOffset slow_walk < 0"
    by (simp add: slow_walk_def)
  from slow_down_never_increases[of initial] slow_down_never_increases[of slow_walk] v t
  show ?thesis by simp
qed

section \<open>Smoothing\<close>

text \<open>
  C6. On every smoothing tick: if \<open>|targetSpeed - currentSpeed| < 0.05\<close> the new current
  speed is the target speed; otherwise it is
  \<open>currentSpeed + (targetSpeed - currentSpeed) * 0.01\<close>. The target speed is not changed.
\<close>

theorem smoothing_tick:
  "(\<bar>targetSpeed s - currentSpeed s\<bar> < 5 / 100 \<longrightarrow> currentSpeed (animate s) = targetSpeed s)
   \<and> (\<not> \<bar>targetSpeed s - currentSpeed s\<bar> < 5 / 100 \<longrightarrow>
        currentSpeed (animate s) = currentSpeed s + (targetSpeed s - currentSpeed s) * (1 / 100))
   \<and> targetSpeed (animate s) = targetSpeed s"
  by (simp add: animate_def Let_def ANIMATION_SPEED_def)

theorem smoothing_tick_witness:
  "\<bar>targetSpeed nearly_there - currentSpeed nearly_there\<bar> < 5 / 100
   \<and> currentSpeed (animate nearly_there) = 5
   \<and> \<not> \<bar>targetSpeed speeding_up - currentSpeed speeding_up\<bar> < 5 / 100
   \<and> currentSpeed (animate speeding_up) = 302 / 100"
proof -
  have a: "targetSpeed nearly_there = 5" "currentSpeed nearly_there = 497 / 100"
    by (simp_all add: nearly_there_def initial_def)
  have b: "targetSpeed speeding_up = 5" "currentSpeed speeding_up = 3"
    by (simp_all add: speeding_up_def initial_def)
  from smoothing_tick[of nearly_there] smoothing_tick[of speeding_up] show ?thesis
    by (simp add: a b)
qed

text \<open>
  C7. On every smoothing tick, for every current and target speed, the new current speed
  lies on the closed segment between the previous current speed and the target speed: it
  moves towards the target and never past it, from either side.
\<close>

theorem smoothing_no_overshoot:
  "(currentSpeed s \<le> targetSpeed s \<longrightarrow>
      currentSpeed s \<le> currentSpeed (animate s) \<and> currentSpeed (animate s) \<le> targetSpeed s)
   \<and> (targetSpeed s \<le> currentSpeed s \<longrightarrow>
      targetSpeed s \<le> currentSpeed (animate s) \<and> currentSpeed (animate s) \<le> currentSpeed s)
   \<and> (\<exists>u. 0 \<le> u \<and> u \<le> 1 \<and>
        currentSpeed (animate s) = (1 - u) * currentSpeed s + u * targetSpeed s)"
proof -
  have seg: "\<exists>u. 0 \<le> u \<and> u \<le> 1 \<and>
        currentSpeed (animate s) = (1 - u) * currentSpeed s + u * targetSpeed s"
  proof (cases "\<bar>targetSpeed s - currentSpeed s\<bar> < 5 / 100")
    case True
    then have "currentSpeed (animate s) = (1 - 1) * currentSpeed s + 1 * targetSpeed s"
      by (simp add: animate_def Let_def)
    then show ?thesis by (intro exI[of _ 1]) simp
  next
    case False
    then have "currentSpeed (animate s)
        = (1 - 1 / 100) * currentSpeed s + (1 / 100) * targetSpeed s"
      by (simp add: animate_def Let_def ANIMATION_SPEED_def field_simps)
    then show ?thesis by (intro exI[of _ "1 / 100"]) simp
  qed
  have "(currentSpeed s \<le> targetSpeed s \<longrightarrow>
      currentSpeed s \<le> currentSpeed (animate s) \<and> currentSpeed (animate s) \<le> targetSpeed s)
   \<and> (targetSpeed s \<le> currentSpeed s \<longrightarrow>
      targetSpeed s \<le> currentSpeed (animate s) \<and> currentSpeed (animate s) \<le> currentSpeed s)"
  proof (cases "\<bar>targetSpeed s - currentSpeed s\<bar> < 5 / 100")
    case True
    then have "currentSpeed (animate s) = targetSpeed s"
      by (simp add: animate_def Let_def)
    then show ?thesis by simp
  next
    case False
    then have "currentSpeed (animate s)
        = currentSpeed s + (targetSpeed s - currentSpeed s) / 100"
      by (simp add: animate_def Let_def ANIMATION_SPEED_def)
    then show ?thesis by argo
  qed
  with seg show ?thesis by blast
qed

theorem smoothing_no_overshoot_witness:
  "currentSpeed speeding_up \<le> targetSpeed speeding_up
   \<and> currentSpeed speeding_up \<le> currentSpeed (animate speeding_up)
   \<and> currentSpeed (animate speeding_up) \<le> targetSpeed speeding_up
   \<and> targetSpeed (initial\<lparr>currentSpeed := 8\<rparr>) \<le> currentSpeed (initial\<lparr>currentSpeed := 8\<rparr>)
   \<and> targetSpeed (initial\<lparr>currentSpeed := 8\<rparr>)
       \<le> currentSpeed (animate (initial\<lparr>currentSpeed := 8\<rparr>))
   \<and> currentSpeed (animate (initial\<lparr>currentSpeed := 8\<rparr>))
       \<le> currentSpeed (initial\<lparr>currentSpeed := 8\<rparr>)"
proof -
  have a: "currentSpeed speeding_up \<le> targetSpeed speeding_up"
    by (simp add: speeding_up_def initial_def)
  have b: "targetSpeed (initial\<lparr>currentSpeed := 8\<rparr>) \<le> currentSpeed (initial\<lparr>currentSpeed := 8\<rparr>)"
    by (simp add: initial_def)
  from smoothing_no_overshoot[of speeding_up]
    smoothing_no_overshoot[of "initial\<lparr>currentSpeed := 8\<rparr>"] a b
  show ?thesis by blast
qed

text \<open>
  C8. For every initial current speed and every fixed target speed there is a number
  \<open>n\<close> of smoothing ticks after which the current speed equals the target speed
  exactly, and it stays there on every later tick.
\<close>

theorem smoothing_converges:
  "\<exists>n. \<forall>m. currentSpeed ((animate ^^ (m + n)) s) = targetSpeed s"
proof -
  have "0 \<le> dist_to_target s"
    by (simp add: dist_to_target_def)
  then have pos: "0 < dist_to_target s + 1"
    by linarith
  then have "0 < (5 / 100) / (dist_to_target s + 1)"
    by simp
  from real_arch_pow_inv[OF this, of "99 / 100"]
  obtain n where n: "(99 / 100) ^ n < (5 / 100) / (dist_to_target s + 1)" by auto
  have "dist_to_target s * (99 / 100) ^ n \<le> (dist_to_target s + 1) * (99 / 100) ^ n"
    by (simp add: mult_right_mono)
  also have "\<dots> < 5 / 100"
  proof -
    from n pos have "(99 / 100) ^ n * (dist_to_target s + 1) < 5 / 100"
      by (simp only: pos_less_divide_eq)
    then show ?thesis by (simp only: mult.commute)
  qed
  finally have "currentSpeed ((animate ^^ Suc n) s) = targetSpeed s"
    by (rule animate_reaches)
  then have "currentSpeed ((animate ^^ Suc n) s) = targetSpeed ((animate ^^ Suc n) s)"
    by (simp del: funpow.simps)
  from funpow_animate_at_target[OF this]
  have "currentSpeed ((animate ^^ m) ((animate ^^ Suc n) s)) = targetSpeed s" for m
    by (simp del: funpow.simps)
  then have "\<forall>m. currentSpeed ((animate ^^ (m + Suc n)) s) = targetSpeed s"
    by (simp only: funpow_add o_apply) simp
  then show ?thesis ..
qed

theorem smoothing_converges_witness:
  "\<exists>n. \<forall>m. currentSpeed ((animate ^^ (m + n)) speeding_up) = 5"
proof -
  have "targetSpeed speeding_up = 5"
    by (simp add: speeding_up_def initial_def)
  with smoothing_converges[of speeding_up] show ?thesis
    by simp
qed

section \<open>Handlers\<close>

text \<open>
  C3. The override cycle has five states. Starting from \<open>overrideIndex = -1\<close>, five
  override clicks bring the index back to \<open>-1\<close> (four clicks leave it at 3); one click
  takes each of the indices 0, 1 and 2 to the next one, and takes 3 to \<open>-1\<close>.
\<close>

theorem override_cycle:
  "overrideIndex ((handleOverrideClick ^^ 5) (s\<lparr>overrideIndex := - 1\<rparr>)) = - 1
   \<and> overrideIndex ((handleOverrideClick ^^ 4) (s\<lparr>overrideIndex := - 1\<rparr>)) = 3
   \<and> overrideIndex (handleOverrideClick (s\<lparr>overrideIndex := 0\<rparr>)) = 1
   \<and> overrideIndex (handleOverrideClick (s\<lparr>overrideIndex := 1\<rparr>)) = 2
   \<and> overrideIndex (handleOverrideClick (s\<lparr>overrideIndex := 2\<rparr>)) = 3
   \<and> overrideIndex (handleOverrideClick (s\<lparr>overrideIndex := 3\<rparr>)) = - 1"
  by (simp add: handleOverrideClick_def numeral_eq_Suc)

theorem override_cycle_witness:
  "overrideIndex ((handleOverrideClick ^^ 5) initial) = - 1
   \<and> overrideIndex ((handleOverrideClick ^^ 4) initial) = 3"
proof -
  have "initial\<lparr>overrideIndex := - 1\<rparr> = initial"
    by (simp add: initial_def)
  with override_cycle[of initial] show ?thesis
    by simp
qed

text \<open>
  Four clicks from the initial state, whose override index is \<open>-1\<close>, do not return to
  \<open>-1\<close>: they stop at the last preset.
\<close>

theorem override_four_clicks_counterexample:
  "overrideIndex initial = - 1
   \<and> overrideIndex ((handleOverrideClick ^^ 4) initial) \<noteq> - 1"
  by (simp add: handleOverrideClick_def initial_def numeral_eq_Suc)

text \<open>
  C4. Proposed values are doubles and a decimal stands for the double nearest to it. The
  multiplier handler stores as exactly 1 every proposed value \<open>v\<close> with
  \<open>0.92 \<le> v < 1.08\<close>, and stores the values 1.08, 0.91 and 1.09 unchanged.
\<close>

theorem multiplier_snap:
  "(is_double v \<and> to_double (92 / 100) \<le> v \<and> v < to_double (108 / 100) \<longrightarrow>
      multiplier (handleMultiplierChange v s) = 1)
   \<and> multiplier (handleMultiplierChange (to_double (108 / 100)) s) = to_double (108 / 100)
   \<and> multiplier (handleMultiplierChange (to_double (91 / 100)) s) = to_double (91 / 100)
   \<and> multiplier (handleMultiplierChange (to_double (109 / 100)) s) = to_double (109 / 100)"
proof -
  have a: "multiplier (handleMultiplierChange v s) = 1"
    if "is_double v" "to_double (92 / 100) \<le> v" "v < to_double (108 / 100)"
    unfolding handleMultiplierChange_def using snap_band[OF that] by simp
  have b: "multiplier (handleMultiplierChange (to_double (108 / 100)) s) = to_double (108 / 100)"
    unfolding handleMultiplierChange_def using keep_108 by simp
  have c: "multiplier (handleMultiplierChange (to_double (91 / 100)) s) = to_double (91 / 100)"
    unfolding handleMultiplierChange_def using keep_091 by simp
  have d: "multiplier (handleMultiplierChange (to_double (109 / 100)) s) = to_double (109 / 100)"
    unfolding handleMultiplierChange_def using keep_109 by simp
  from a b c d show ?thesis by blast
qed

theorem multiplier_snap_witness:
  "is_double (to_double (92 / 100)) \<and> to_double (92 / 100) \<le> to_double (92 / 100)
   \<and> to_double (92 / 100) < to_double (108 / 100)
   \<and> multiplier (handleMultiplierChange (to_double (92 / 100)) (initial\<lparr>multiplier := 1 / 2\<rparr>)) = 1
   \<and> to_double (92 / 100) = 8286623314361713 * pow2 (- 53)"
proof -
  note h = is_double_092 order_refl[of "to_double (92 / 100)"] lit_092_lt_108
  from multiplier_snap[of "to_double (92 / 100)" "initial\<lparr>multiplier := 1 / 2\<rparr>"] h double_092
  show ?thesis by blast
qed

text \<open>
  The double written 1.08 is the upper end of the band \<open>[0.92, 1.08]\<close>. It lies a little
  above the real number 1.08, its distance from 1 is not below the threshold, and it is
  stored as it is, not as 1.
\<close>

theorem multiplier_snap_counterexample:
  "is_double (to_double (108 / 100)) \<and> to_double (92 / 100) \<le> to_double (108 / 100)
   \<and> to_double (108 / 100) \<le> to_double (108 / 100)
   \<and> multiplier (handleMultiplierChange (to_double (108 / 100)) initial) \<noteq> 1
   \<and> to_double (108 / 100) = 4863887597560136 * pow2 (- 52)"
proof -
  have "multiplier (handleMultiplierChange (to_double (108 / 100)) initial) = to_double (108 / 100)"
    unfolding handleMultiplierChange_def using keep_108 by simp
  with lit_108_ne_1 have "multiplier (handleMultiplierChange (to_double (108 / 100)) initial) \<noteq> 1"
    by simp
  with is_double_108 lit_092_lt_108 double_108 show ?thesis
    by (blast intro: less_imp_le order_refl)
qed

end
